theory Spec2Isabelle
  imports Complex_Main "HOL-Library.Sublist"
begin

section \<open>The hyperlocal events client: state, handlers and requests of App.js\<close>

text \<open>
  The component \<open>App\<close> of \<open>frontend/src/App.js\<close> holds its state in React hooks and
  changes it in event handlers. Each handler is embedded as a function from the state
  the handler's closure sees (and from what the host delivers: the clock, the outcome of
  a \<open>fetch\<close>, the outcome of the geolocation request) to the state after the handler's
  updates, paired with the requests it issued.
\<close>

subsection \<open>JavaScript values\<close>

text \<open>
  A Number is \<open>NaN\<close>, an infinity or a finite value, kept as the rational number it
  is; the two zeros are one. What \<open>parseFloat\<close> returns is rounded to binary64 (see
  \<open>binary64\<close> below). The coordinates of a location are kept as the host reports
  them and as the source writes them.
\<close>

datatype jsnum = NaN | PosInfinity | NegInfinity | Fin rat

datatype jsval =
    JUndefined
  | JNull
  | JBool bool
  | JNum jsnum
  | JStr string
  | JArr "jsval list"
  | JObj "(string \<times> jsval) list"

text \<open>
  \<open>JSON.stringify\<close>, as the document its text denotes: a property whose value is
  \<open>undefined\<close> is left out of an object, \<open>undefined\<close> in an array and every
  non-finite number are written \<open>null\<close>. At the top level \<open>undefined\<close> gives no
  text at all (\<open>None\<close>).
\<close>

fun SerializeJSONProperty :: "jsval \<Rightarrow> jsval option"
  and SerializeJSONArray :: "jsval list \<Rightarrow> jsval list"
  and SerializeJSONObject :: "(string \<times> jsval) list \<Rightarrow> (string \<times> jsval) list" where
  "SerializeJSONProperty JUndefined = None"
| "SerializeJSONProperty JNull = Some JNull"
| "SerializeJSONProperty (JBool b) = Some (JBool b)"
| "SerializeJSONProperty (JNum n) = Some (case n of Fin r \<Rightarrow> JNum (Fin r) | _ \<Rightarrow> JNull)"
| "SerializeJSONProperty (JStr s) = Some (JStr s)"
| "SerializeJSONProperty (JArr xs) = Some (JArr (SerializeJSONArray xs))"
| "SerializeJSONProperty (JObj kvs) = Some (JObj (SerializeJSONObject kvs))"
| "SerializeJSONArray [] = []"
| "SerializeJSONArray (x # xs) =
     (case SerializeJSONProperty x of None \<Rightarrow> JNull | Some v \<Rightarrow> v) # SerializeJSONArray xs"
| "SerializeJSONObject [] = []"
| "SerializeJSONObject ((k, x) # kvs) =
     (case SerializeJSONProperty x of
        None \<Rightarrow> SerializeJSONObject kvs
      | Some v \<Rightarrow> (k, v) # SerializeJSONObject kvs)"

definition JSON_stringify :: "jsval \<Rightarrow> jsval option" where
  "JSON_stringify v = SerializeJSONProperty v"

text \<open>\<open>ToBoolean\<close>, which decides \<open>a || b\<close>.\<close>

fun ToBoolean :: "jsval \<Rightarrow> bool" where
  "ToBoolean JUndefined = False"
| "ToBoolean JNull = False"
| "ToBoolean (JBool b) = b"
| "ToBoolean (JNum n) = (case n of NaN \<Rightarrow> False | Fin r \<Rightarrow> r \<noteq> 0 | _ \<Rightarrow> True)"
| "ToBoolean (JStr s) = (s \<noteq> [])"
| "ToBoolean (JArr xs) = True"
| "ToBoolean (JObj kvs) = True"

definition js_or :: "jsval \<Rightarrow> jsval \<Rightarrow> jsval" where
  "js_or a b = (if ToBoolean a then a else b)"

text \<open>
  Reading a property \<open>data.name\<close> of a value that \<open>response.json()\<close> produced. On
  \<open>null\<close> and \<open>undefined\<close> the read throws a TypeError; on an object it is the
  property or \<open>undefined\<close>. The two names read in App.js, \<open>response\<close> and
  \<open>recommended_events\<close>, are no properties of a string, number, boolean or array, so
  the read gives \<open>undefined\<close> there.
\<close>

datatype js_error = NetworkError | SyntaxError | TypeError | Error string

fun get_property :: "jsval \<Rightarrow> string \<Rightarrow> js_error + jsval" where
  "get_property JUndefined name = Inl TypeError"
| "get_property JNull name = Inl TypeError"
| "get_property (JObj kvs) name =
     Inr (case map_of kvs name of None \<Rightarrow> JUndefined | Some v \<Rightarrow> v)"
| "get_property v name = Inr JUndefined"

text \<open>
  \<open>String.prototype.trim\<close>. A \<open>char\<close> stands for a code unit below 256; the white
  space and line terminators in that range are TAB, LF, VT, FF, CR, SP and NBSP.
\<close>

definition is_white_space :: "char \<Rightarrow> bool" where
  "is_white_space c \<longleftrightarrow>
     c \<in> {CHR 0x09, CHR 0x0A, CHR 0x0B, CHR 0x0C, CHR 0x0D, CHR 0x20, CHR 0xA0}"

definition trim_start :: "string \<Rightarrow> string" where
  "trim_start s = dropWhile is_white_space s"

definition trim :: "string \<Rightarrow> string" where
  "trim s = rev (dropWhile is_white_space (rev (dropWhile is_white_space s)))"

subsection \<open>The state of the component\<close>

datatype message_type = User | Bot

record chat_message =
  msg_id :: int
  msg_type :: message_type
  content :: jsval
  timestamp :: string

record location =
  latitude :: rat
  longitude :: rat

record new_event =
  title :: string
  description :: string
  category :: string
  date :: string
  time :: string
  location :: string
  address :: string
  latitude :: string
  longitude :: string
  organizer :: string
  price :: string
  image_url :: string

record app_state =
  messages :: "chat_message list"
  inputMessage :: string
  userLocation :: "location option"
  events :: jsval
  recommendedEvents :: jsval
  isLoading :: bool
  activeTab :: string
  preferences :: "string list"
  showAddEvent :: bool
  newEvent :: new_event

text \<open>The value \<open>setNewEvent\<close> resets the form to, which is also its first value.\<close>

definition blank_event :: new_event where
  "blank_event =
     \<lparr>title = '''', description = '''', category = '''', date = '''', time = '''',
      location = '''', address = '''', latitude = '''', longitude = '''',
      organizer = '''', price = ''Free'', image_url = ''''\<rparr>"

text \<open>The arguments of the \<open>useState\<close> calls.\<close>

definition initial_state :: app_state where
  "initial_state =
     \<lparr>messages = [], inputMessage = '''', userLocation = None, events = JArr [],
      recommendedEvents = JArr [], isLoading = False, activeTab = ''chat'',
      preferences = [], showAddEvent = False, newEvent = blank_event\<rparr>"

subsection \<open>What the host delivers\<close>

text \<open>One reading of the clock: \<open>Date.now()\<close> and \<open>new Date().toLocaleTimeString()\<close>.\<close>

record clock =
  now :: int
  localeTime :: string

text \<open>
  A \<open>fetch\<close> either rejects or resolves to a response with its \<open>ok\<close> flag;
  \<open>response.json()\<close> then gives the parsed body, or rejects (\<open>None\<close>).
\<close>

datatype fetch_result = Rejected | Response bool "jsval option"

text \<open>
  A request as passed to \<open>fetch\<close>; \<open>http_method\<close> is the option
  \<open>method\<close>. The \<open>url\<close> is the part after \<open>BACKEND_URL\<close>; a \<open>fetch\<close>
  without options is a GET with no headers and no body.
\<close>

record request =
  url :: string
  http_method :: string
  headers :: "(string \<times> string) list"
  body :: "jsval option"

text \<open>
  The geolocation request of \<open>requestLocation\<close>: \<open>navigator.geolocation\<close> is
  missing, or \<open>getCurrentPosition\<close> calls the success callback with the coordinates
  (finite numbers), or it calls the error callback.
\<close>

datatype geolocation_result = NoGeolocation | Position rat rat | PositionError

subsection \<open>requestLocation\<close>

definition default_location :: location where
  "default_location = \<lparr>location.latitude = 40.7589, location.longitude = - 73.9851\<rparr>"

fun requestLocation :: "app_state \<Rightarrow> geolocation_result \<Rightarrow> app_state" where
  "requestLocation st (Position lat lon) =
     st\<lparr>userLocation := Some \<lparr>location.latitude = lat, location.longitude = lon\<rparr>\<rparr>"
| "requestLocation st PositionError = st\<lparr>userLocation := Some default_location\<rparr>"
| "requestLocation st NoGeolocation = st\<lparr>userLocation := Some default_location\<rparr>"

subsection \<open>fetchEvents\<close>

definition events_request :: request where
  "events_request = \<lparr>url = ''/api/events'', http_method = ''GET'', headers = [], body = None\<rparr>"

text \<open>
  \<open>response.ok\<close> is not looked at: whatever \<open>response.json()\<close> gives becomes the
  events. A rejected fetch or an unparsable body is caught and only logged.
\<close>

fun fetchEvents_settle :: "app_state \<Rightarrow> fetch_result \<Rightarrow> app_state" where
  "fetchEvents_settle st Rejected = st"
| "fetchEvents_settle st (Response ok None) = st"
| "fetchEvents_settle st (Response ok (Some data)) = st\<lparr>events := data\<rparr>"

definition fetchEvents :: "app_state \<Rightarrow> fetch_result \<Rightarrow> app_state \<times> request list" where
  "fetchEvents st res = (fetchEvents_settle st res, [events_request])"

subsection \<open>handleSendMessage\<close>

definition apology :: string where
  "apology =
     ''I'm sorry, I'm having trouble connecting right now. Please try again in a moment.''"

definition json_headers :: "(string \<times> string) list" where
  "json_headers = [(''Content-Type'', ''application/json'')]"

text \<open>
  The body of the chat request. \<open>userLocation?.latitude\<close> is \<open>undefined\<close> while
  \<open>userLocation\<close> is \<open>null\<close>.
\<close>

definition chat_payload :: "app_state \<Rightarrow> jsval" where
  "chat_payload st =
     JObj [(''message'', JStr (inputMessage st)),
           (''latitude'',
              (case userLocation st of None \<Rightarrow> JUndefined
               | Some loc \<Rightarrow> JNum (Fin (location.latitude loc)))),
           (''longitude'',
              (case userLocation st of None \<Rightarrow> JUndefined
               | Some loc \<Rightarrow> JNum (Fin (location.longitude loc)))),
           (''preferences'', JArr (map JStr (preferences st)))]"

definition chat_request :: "app_state \<Rightarrow> request" where
  "chat_request st =
     \<lparr>url = ''/api/chat'', http_method = ''POST'', headers = json_headers,
      body = JSON_stringify (chat_payload st)\<rparr>"

text \<open>
  The handler up to its \<open>await\<close>: nothing happens on an input that trims to the empty
  string; otherwise the user's message is appended, the input is cleared, the loading
  flag is set and the request goes out, built from the values of the closure.
\<close>

definition handleSendMessage_begin ::
    "app_state \<Rightarrow> clock \<Rightarrow> (app_state \<times> request) option" where
  "handleSendMessage_begin st c =
     (if trim (inputMessage st) = [] then None
      else Some
        (st\<lparr>messages := messages st @
               [\<lparr>msg_id = now c, msg_type = User, content = JStr (inputMessage st),
                 timestamp = localeTime c\<rparr>],
            inputMessage := '''',
            isLoading := True\<rparr>,
         chat_request st))"

text \<open>
  The awaits of the \<open>try\<close> block: the data of the response, or the exception that
  takes the handler to its \<open>catch\<close> (a rejected fetch, the \<open>Error\<close> thrown on a
  response that is not ok, a body that \<open>response.json()\<close> cannot parse).
\<close>

fun chat_data :: "fetch_result \<Rightarrow> js_error + jsval" where
  "chat_data Rejected = Inl NetworkError"
| "chat_data (Response ok b) =
     (if \<not> ok then Inl (Error ''Failed to get response'')
      else case b of None \<Rightarrow> Inl SyntaxError | Some data \<Rightarrow> Inr data)"

definition append_bot_message :: "app_state \<Rightarrow> clock \<Rightarrow> jsval \<Rightarrow> app_state" where
  "append_bot_message st c v =
     st\<lparr>messages := messages st @
          [\<lparr>msg_id = now c + 1, msg_type = Bot, content = v, timestamp = localeTime c\<rparr>]\<rparr>"

text \<open>
  The handler after its \<open>await\<close>, on the state of that moment (the updates of
  \<open>messages\<close> are functional updates). In the order of the source: \<open>data.response\<close>
  is read, the bot's message is appended, \<open>data.recommended_events\<close> is read and
  stored; an exception at any point appends the apology to the state reached by then;
  the \<open>finally\<close> clears the loading flag.
\<close>

definition handleSendMessage_settle :: "app_state \<Rightarrow> fetch_result \<Rightarrow> clock \<Rightarrow> app_state" where
  "handleSendMessage_settle st res c =
     (case chat_data res of
        Inl e \<Rightarrow> append_bot_message st c (JStr apology)
      | Inr data \<Rightarrow>
          (case get_property data ''response'' of
             Inl e \<Rightarrow> append_bot_message st c (JStr apology)
           | Inr r \<Rightarrow>
               (case get_property data ''recommended_events'' of
                  Inl e \<Rightarrow> append_bot_message (append_bot_message st c r) c (JStr apology)
                | Inr evs \<Rightarrow>
                    (append_bot_message st c r)\<lparr>recommendedEvents := js_or evs (JArr [])\<rparr>)))
     \<lparr>isLoading := False\<rparr>"

definition handleSendMessage ::
    "app_state \<Rightarrow> clock \<Rightarrow> fetch_result \<Rightarrow> clock \<Rightarrow> app_state \<times> request list" where
  "handleSendMessage st c res c' =
     (case handleSendMessage_begin st c of
        None \<Rightarrow> (st, [])
      | Some (st1, rq) \<Rightarrow> (handleSendMessage_settle st1 res c', [rq]))"

subsection \<open>parseFloat\<close>

text \<open>
  The built-in \<open>parseFloat\<close>: leading white space is skipped, then the longest prefix
  that is a \<open>StrDecimalLiteral\<close> is read (a sign, then \<open>Infinity\<close> or digits with
  an optional fraction and an optional exponent); the result is \<open>NaN\<close> when there
  is no such prefix, and otherwise the Number value of the decimal read.
\<close>

definition is_digit :: "char \<Rightarrow> bool" where
  "is_digit c \<longleftrightarrow> c \<in> set ''0123456789''"

definition digits_value :: "string \<Rightarrow> nat" where
  "digits_value ds = foldl (\<lambda>n c. 10 * n + (of_char c - 48)) 0 ds"

definition exponent_part :: "string \<Rightarrow> int" where
  "exponent_part s =
     (case s of
        [] \<Rightarrow> 0
      | c # t \<Rightarrow>
          if c = CHR ''e'' \<or> c = CHR ''E'' then
            (case t of
               [] \<Rightarrow> 0
             | d # u \<Rightarrow>
                 if d = CHR ''+'' \<and> takeWhile is_digit u \<noteq> []
                   then int (digits_value (takeWhile is_digit u))
                 else if d = CHR ''-'' \<and> takeWhile is_digit u \<noteq> []
                   then - int (digits_value (takeWhile is_digit u))
                 else int (digits_value (takeWhile is_digit t)))
          else 0)"

text \<open>
  The Number value of a fraction \<open>a / b\<close> of naturals: the binary64 value nearest to
  it, the one with the even significand when two are equally near. With \<open>e\<close> the
  binary exponent of the fraction (\<open>2 ^ e \<le> a / b < 2 ^ (e + 1)\<close>), the binary64
  values around it are the multiples of \<open>2 ^ q\<close>, where \<open>q\<close> is \<open>e - 52\<close>, and
  \<open>- 1074\<close> for the subnormal numbers. The fraction is rounded to a multiple of
  \<open>2 ^ q\<close>; the result is an infinity from \<open>2 ^ 1024\<close> on, and may be zero. (For a
  decimal of more than twenty significant digits ECMAScript also allows the value of
  the decimal cut after the twentieth digit, rounded up or down there; the nearest
  value of the whole decimal is one of the results it allows.)
\<close>

fun bit_length :: "nat \<Rightarrow> nat" where
  "bit_length n = (if n = 0 then 0 else Suc (bit_length (n div 2)))"

declare bit_length.simps [simp del]

definition binary_exponent :: "nat \<Rightarrow> nat \<Rightarrow> int" where
  "binary_exponent a b =
     (let e = int (bit_length a) - int (bit_length b)
      in if (if 0 \<le> e then b * 2 ^ nat e \<le> a else b \<le> a * 2 ^ nat (- e)) then e else e - 1)"

definition ulp_exponent :: "nat \<Rightarrow> nat \<Rightarrow> int" where
  "ulp_exponent a b = max (binary_exponent a b) (- 1022) - 52"

definition round_half_even :: "nat \<Rightarrow> nat \<Rightarrow> nat" where
  "round_half_even a b =
     (let q = a div b; r = a mod b
      in if 2 * r < b then q
         else if b < 2 * r then q + 1
         else if even q then q else q + 1)"

definition binary64 :: "nat \<Rightarrow> nat \<Rightarrow> jsnum" where
  "binary64 a b =
     (if a = 0 then Fin 0
      else
        let q = ulp_exponent a b;
            n = (if q \<le> 0 then round_half_even (a * 2 ^ nat (- q)) b
                 else round_half_even a (b * 2 ^ nat q));
            v = (if q \<le> 0 then of_nat n / 2 ^ nat (- q) else of_nat n * 2 ^ nat q)
        in if 2 ^ 1024 \<le> v then PosInfinity else Fin v)"

text \<open>The Number value of the decimal \<open>m \<times> 10\<^sup>e\<close>.\<close>

definition number_of_decimal :: "nat \<Rightarrow> int \<Rightarrow> jsnum" where
  "number_of_decimal m e =
     (if 0 \<le> e then binary64 (m * 10 ^ nat e) 1 else binary64 m (10 ^ nat (- e)))"

definition str_unsigned_decimal :: "string \<Rightarrow> jsnum" where
  "str_unsigned_decimal s =
     (if take 8 s = ''Infinity'' then PosInfinity
      else
        let ip = takeWhile is_digit s;
            r = dropWhile is_digit s;
            dot = (r \<noteq> [] \<and> hd r = CHR ''.'');
            fp = (if dot then takeWhile is_digit (tl r) else []);
            r' = (if dot then dropWhile is_digit (tl r) else r)
        in if ip = [] \<and> fp = [] then NaN
           else number_of_decimal (digits_value (ip @ fp))
                  (exponent_part r' - int (length fp)))"

fun negate :: "jsnum \<Rightarrow> jsnum" where
  "negate NaN = NaN"
| "negate PosInfinity = NegInfinity"
| "negate NegInfinity = PosInfinity"
| "negate (Fin r) = Fin (- r)"

definition parseFloat :: "string \<Rightarrow> jsnum" where
  "parseFloat s =
     (case trim_start s of
        [] \<Rightarrow> NaN
      | c # t \<Rightarrow>
          if c = CHR ''-'' then negate (str_unsigned_decimal t)
          else if c = CHR ''+'' then str_unsigned_decimal t
          else str_unsigned_decimal (c # t))"

subsection \<open>handleAddEvent\<close>

text \<open>
  \<open>eventData\<close>: the fields of the form in their order, with \<open>latitude\<close> and
  \<open>longitude\<close> replaced by what \<open>parseFloat\<close> makes of them.
\<close>

definition eventData :: "new_event \<Rightarrow> jsval" where
  "eventData ev =
     JObj [(''title'', JStr (title ev)),
           (''description'', JStr (description ev)),
           (''category'', JStr (category ev)),
           (''date'', JStr (date ev)),
           (''time'', JStr (time ev)),
           (''location'', JStr (new_event.location ev)),
           (''address'', JStr (address ev)),
           (''latitude'', JNum (parseFloat (new_event.latitude ev))),
           (''longitude'', JNum (parseFloat (new_event.longitude ev))),
           (''organizer'', JStr (organizer ev)),
           (''price'', JStr (price ev)),
           (''image_url'', JStr (image_url ev))]"

definition add_event_request :: "app_state \<Rightarrow> request" where
  "add_event_request st =
     \<lparr>url = ''/api/events'', http_method = ''POST'', headers = json_headers,
      body = JSON_stringify (eventData (newEvent st))\<rparr>"

text \<open>
  The request is built and sent without a check of the form. On a response that is ok
  the dialog is closed, the form is reset and \<open>fetchEvents\<close> is called (its own
  fetch has the outcome \<open>get\<close>); a rejected fetch is caught and only logged; a
  response that is not ok changes nothing.
\<close>

definition handleAddEvent ::
    "app_state \<Rightarrow> fetch_result \<Rightarrow> fetch_result \<Rightarrow> app_state \<times> request list" where
  "handleAddEvent st post get =
     (case post of
        Rejected \<Rightarrow> (st, [add_event_request st])
      | Response ok b \<Rightarrow>
          if ok then
            (case fetchEvents (st\<lparr>showAddEvent := False, newEvent := blank_event\<rparr>) get of
               (st', rqs) \<Rightarrow> (st', add_event_request st # rqs))
          else (st, [add_event_request st]))"

subsection \<open>Preferences\<close>

definition addPreference :: "app_state \<Rightarrow> string \<Rightarrow> app_state" where
  "addPreference st cat =
     (if cat \<notin> set (preferences st)
      then st\<lparr>preferences := preferences st @ [cat]\<rparr>
      else st)"

definition removePreference :: "app_state \<Rightarrow> string \<Rightarrow> app_state" where
  "removePreference st cat =
     st\<lparr>preferences := filter (\<lambda>p. p \<noteq> cat) (preferences st)\<rparr>"

text \<open>A sequence of calls of the two handlers, each on the state the one before left.\<close>

datatype preference_call = AddPreference string | RemovePreference string

fun preference_step :: "app_state \<Rightarrow> preference_call \<Rightarrow> app_state" where
  "preference_step st (AddPreference c) = addPreference st c"
| "preference_step st (RemovePreference c) = removePreference st c"

definition preference_calls :: "app_state \<Rightarrow> preference_call list \<Rightarrow> app_state" where
  "preference_calls st cs = foldl preference_step st cs"

subsection \<open>The effect run on mount\<close>

text \<open>
  The effect of the first render calls \<open>requestLocation\<close> and \<open>fetchEvents\<close>, whose
  callbacks change the state when the host answers, and sets the messages to the
  welcome message.
\<close>

definition welcome_message :: "clock \<Rightarrow> chat_message" where
  "welcome_message c =
     \<lparr>msg_id = 1, msg_type = Bot,
      content = JStr (''Hi! I'm your hyperlocal events assistant. I can help you discover '' @
        ''amazing local events based on your location and interests. '' @
        ''What kind of events are you looking for?''),
      timestamp = localeTime c\<rparr>"

definition mount_effect :: "app_state \<Rightarrow> clock \<Rightarrow> app_state" where
  "mount_effect st c = st\<lparr>messages := [welcome_message c]\<rparr>"

subsection \<open>Concrete runs\<close>

text \<open>
  States, clock readings and a response of the backend for the concrete runs below. The
  states are the mounted component, before the geolocation request has answered, with
  what the user typed or chose.
\<close>

definition first_render :: clock where
  "first_render = \<lparr>now = 1699999990000, localeTime = ''11:59:50 AM''\<rparr>"

definition mounted_state :: app_state where
  "mounted_state = mount_effect initial_state first_render"

definition greeting_state :: app_state where
  "greeting_state = mounted_state\<lparr>inputMessage := ''jazz tonight?''\<rparr>"

definition blank_input_state :: app_state where
  "blank_input_state = mounted_state\<lparr>inputMessage := [CHR '' '', CHR 0x09, CHR '' '']\<rparr>"

definition noon :: clock where
  "noon = \<lparr>now = 1700000000000, localeTime = ''12:00:00 PM''\<rparr>"

definition noon_later :: clock where
  "noon_later = \<lparr>now = 1700000000450, localeTime = ''12:00:01 PM''\<rparr>"

definition jazz_night :: jsval where
  "jazz_night = JObj [(''title'', JStr ''Jazz Night''), (''distance'', JNum (Fin 1.2))]"

definition jazz_reply :: jsval where
  "jazz_reply =
     JObj [(''response'', JStr ''Try Jazz Night at the Blue Room.''),
           (''recommended_events'', JArr [jazz_night])]"

text \<open>The state after a first turn that succeeded, with the next question typed in.\<close>

definition second_question_state :: app_state where
  "second_question_state =
     (fst (handleSendMessage greeting_state noon (Response True (Some jazz_reply)) noon_later))
       \<lparr>inputMessage := ''anything else?''\<rparr>"

text \<open>The admin dialog opened with nothing typed into the form.\<close>

definition open_form_state :: app_state where
  "open_form_state = mounted_state\<lparr>activeTab := ''admin'', showAddEvent := True\<rparr>"

text \<open>The admin form with a title and both coordinates typed in.\<close>

definition filled_form_state :: app_state where
  "filled_form_state =
     open_form_state\<lparr>newEvent := blank_event\<lparr>title := ''Jazz Night'',
       latitude := ''40.7589'', longitude := '' -73.9851''\<rparr>\<rparr>"

definition music_state :: app_state where
  "music_state = mounted_state\<lparr>preferences := [''Music'', ''Community'']\<rparr>"

section \<open>Properties\<close>

subsection \<open>Auxiliary facts\<close>

lemma mounted_state_eq:
  "mounted_state =
     \<lparr>messages = [welcome_message first_render], inputMessage = '''', userLocation = None,
      events = JArr [], recommendedEvents = JArr [], isLoading = False, activeTab = ''chat'',
      preferences = [], showAddEvent = False, newEvent = blank_event\<rparr>"
  by (simp add: mounted_state_def mount_effect_def initial_state_def)

lemma trim_greeting: "trim (inputMessage greeting_state) = ''jazz tonight?''"
  by (simp add: greeting_state_def trim_def is_white_space_def)

lemma trim_blank_input: "trim (inputMessage blank_input_state) = []"
  by (simp add: blank_input_state_def trim_def is_white_space_def)

lemma trim_second_question: "trim (inputMessage second_question_state) \<noteq> []"
  by (simp add: second_question_state_def trim_def is_white_space_def)

lemma parseFloat_empty: "parseFloat '''' = NaN"
  by (simp add: parseFloat_def trim_start_def)

subsection \<open>The rounding of parseFloat\<close>

text \<open>
  The value \<open>binary64\<close> gives for a positive fraction is a multiple of
  \<open>2 ^ ulp_exponent\<close> with a significand of at most \<open>2 ^ 53\<close>, and it is nearest:
  no further from the fraction than half of \<open>2 ^ ulp_exponent\<close>, and even where the
  fraction is half way. A fraction of at most \<open>2 ^ - 1075\<close> gives zero, one of
  \<open>2 ^ 1024\<close> or more gives an infinity.
\<close>

lemma bit_length_0: "bit_length 0 = 0"
  by (simp add: bit_length.simps)

lemma bit_length_1: "bit_length (Suc 0) = Suc 0"
  by (simp add: bit_length.simps [of "Suc 0"] bit_length_0)

lemma bit_length_eq: "2 ^ k \<le> n \<Longrightarrow> n < 2 ^ Suc k \<Longrightarrow> bit_length n = Suc k"
proof (induction k arbitrary: n)
  case 0
  then have "n = 1" by simp
  then show ?case by (simp add: bit_length_1)
next
  case (Suc k)
  have "2 ^ k \<le> n div 2" "n div 2 < 2 ^ Suc k"
    using Suc.prems by simp_all
  then have "bit_length (n div 2) = Suc k"
    by (rule Suc.IH)
  moreover have "n \<noteq> 0"
    using Suc.prems(1) by (cases "n = 0") simp_all
  ultimately show ?case
    by (simp add: bit_length.simps [of n])
qed

lemma bit_length_bounds:
  "0 < n \<Longrightarrow> 2 ^ (bit_length n - 1) \<le> n \<and> n < 2 ^ bit_length n"
proof (induction n rule: bit_length.induct)
  case (1 n)
  show ?case
  proof (cases "n div 2 = 0")
    case True
    with "1.prems" have "n = 1" by (simp add: div_eq_0_iff) 
    then show ?thesis by (simp add: bit_length_1)
  next
    case False
    then have h: "2 ^ (bit_length (n div 2) - 1) \<le> n div 2 \<and> n div 2 < 2 ^ bit_length (n div 2)"
      using "1.IH" "1.prems" by simp
    have pos: "0 < bit_length (n div 2)"
      using False by (simp add: bit_length.simps [of "n div 2"])
    have b: "bit_length n = Suc (bit_length (n div 2))"
      using "1.prems" by (simp add: bit_length.simps [of n])
    from pos obtain j where j: "bit_length (n div 2) = Suc j"
      by (cases "bit_length (n div 2)") simp_all
    from h j have "2 ^ j \<le> n div 2" "n div 2 < 2 ^ Suc j" by simp_all
    then have "2 * 2 ^ j \<le> n" "n < 2 * 2 ^ Suc j" by linarith+
    then show ?thesis by (simp add: b j)
  qed
qed

lemma round_half_even_nearest:
  assumes "0 < b"
  shows "\<bar>(of_nat (round_half_even a b) :: rat) - of_nat a / of_nat b\<bar> \<le> 1 / 2"
proof -
  let ?q = "a div b" and ?r = "a mod b"
  have a: "(of_nat a :: rat) = of_nat ?q * of_nat b + of_nat ?r"
    by (metis of_nat_add of_nat_mult div_mult_mod_eq)
  have bpos: "(0::rat) < of_nat b" using assms by simp
  have frac: "(of_nat a :: rat) / of_nat b = of_nat ?q + of_nat ?r / of_nat b"
    using bpos by (simp add: a add_divide_distrib)
  have rlt: "?r < b" using assms by simp
  consider "2 * ?r < b" | "b < 2 * ?r" | "2 * ?r = b" by linarith
  then show ?thesis
  proof cases
    case 1
    then have "(2 * of_nat ?r :: rat) < of_nat b"
      by (metis of_nat_less_iff of_nat_mult of_nat_numeral)
    then have "(of_nat ?r :: rat) / of_nat b \<le> 1 / 2"
      using bpos by (simp add: field_simps)
    moreover have "0 \<le> (of_nat ?r :: rat) / of_nat b" by simp
    ultimately show ?thesis
      using 1 by (simp add: round_half_even_def Let_def frac)
  next
    case 2
    then have "(of_nat b :: rat) < 2 * of_nat ?r"
      by (metis of_nat_less_iff of_nat_mult of_nat_numeral)
    then have "1 / 2 \<le> (of_nat ?r :: rat) / of_nat b"
      using bpos by (simp add: field_simps)
    moreover have "(of_nat ?r :: rat) / of_nat b \<le> 1"
      using rlt bpos by (simp add: field_simps)
    ultimately show ?thesis
      using 2 by (simp add: round_half_even_def Let_def frac)
  next
    case 3
    then have "(2 * of_nat ?r :: rat) = of_nat b"
      by (metis of_nat_mult of_nat_numeral)
    then have "(of_nat ?r :: rat) / of_nat b = 1 / 2"
      using bpos by (simp add: field_simps)
    then show ?thesis
      using 3 by (simp add: round_half_even_def Let_def frac)
  qed
qed

lemma round_half_even_tie:
  "2 * (a mod b) = b \<Longrightarrow> even (round_half_even a b)"
  by (simp add: round_half_even_def Let_def)

lemma binary_exponent_bounds_nat:
  assumes "0 < a" "0 < b"
  shows "(0 \<le> binary_exponent a b \<longrightarrow>
            b * 2 ^ nat (binary_exponent a b) \<le> a \<and> a < 2 * (b * 2 ^ nat (binary_exponent a b)))
       \<and> (binary_exponent a b < 0 \<longrightarrow>
            b \<le> a * 2 ^ nat (- binary_exponent a b) \<and> a * 2 ^ nat (- binary_exponent a b) < 2 * b)"
proof -
  obtain j where j: "bit_length a = Suc j"
    using bit_length_bounds [OF assms(1)] by (cases "bit_length a") auto
  obtain k where k: "bit_length b = Suc k"
    using bit_length_bounds [OF assms(2)] by (cases "bit_length b") auto
  have A: "2 ^ j \<le> a" "a < 2 * 2 ^ j"
    using bit_length_bounds [OF assms(1)] j by simp_all
  have B: "2 ^ k \<le> b" "b < 2 * 2 ^ k"
    using bit_length_bounds [OF assms(2)] k by simp_all
  show ?thesis
  proof (cases "k \<le> j")
    case True
    then obtain d where d: "j = k + d" using le_Suc_ex by blast
    have e0: "int (bit_length a) - int (bit_length b) = int d"
      by (simp add: j k d)
    have up: "a < 2 * (b * 2 ^ d)"
    proof -
      have "a < 2 * (2 ^ k * 2 ^ d)" using A(2) by (simp add: d power_add)
      also have "\<dots> \<le> 2 * (b * 2 ^ d)" using B(1) by simp
      finally show ?thesis .
    qed
    show ?thesis
    proof (cases "b * 2 ^ d \<le> a")
      case True
      then have "binary_exponent a b = int d"
        by (simp add: binary_exponent_def e0 Let_def)
      with True up show ?thesis by simp
    next
      case False
      then have be: "binary_exponent a b = int d - 1"
        by (simp add: binary_exponent_def e0 Let_def)
      show ?thesis
      proof (cases d)
        case 0
        then have "a < b" using False by simp
        moreover have "b \<le> a * 2"
        proof -
          have "b < 2 * 2 ^ k" by (rule B(2))
          also have "\<dots> \<le> 2 * a" using A(1) by (simp add: d 0)
          finally show ?thesis by simp
        qed
        ultimately show ?thesis by (simp add: be 0)
      next
        case (Suc d')
        have lo: "b * 2 ^ d' \<le> a"
        proof -
          have "b * 2 ^ d' \<le> (2 * 2 ^ k) * 2 ^ d'" using B(2) by simp
          also have "\<dots> = 2 ^ j" by (simp add: d Suc power_add)
          also have "\<dots> \<le> a" by (rule A(1))
          finally show ?thesis .
        qed
        have "a < 2 * (b * 2 ^ d')" using False by (simp add: Suc)
        with lo show ?thesis by (simp add: be Suc)
      qed
    qed
  next
    case False
    then have "j < k" by simp
    then obtain d where d: "k = Suc (j + d)"
      using less_imp_Suc_add by blast
    have e0: "int (bit_length a) - int (bit_length b) = - int (Suc d)"
      by (simp add: j k d)
    have lo2: "b < 2 * (a * 2 ^ Suc d)"
    proof -
      have "b < 2 * 2 ^ k" by (rule B(2))
      also have "\<dots> = 2 * (2 ^ j * 2 ^ Suc d)" by (simp add: d power_add)
      also have "\<dots> \<le> 2 * (a * 2 ^ Suc d)" using A(1) by simp
      finally show ?thesis .
    qed
    have up2: "a * 2 ^ Suc d < 2 * b"
    proof -
      have "a * 2 ^ Suc d < (2 * 2 ^ j) * 2 ^ Suc d" using A(2) by simp
      also have "\<dots> = 2 * 2 ^ k" by (simp add: d power_add)
      also have "\<dots> \<le> 2 * b" using B(1) by simp
      finally show ?thesis .
    qed
    show ?thesis
    proof (cases "b \<le> a * 2 ^ Suc d")
      case True
      then have "binary_exponent a b = - int (Suc d)"
        by (simp add: binary_exponent_def e0 Let_def del: of_nat_Suc power_Suc)
      moreover have "nat (int d + 1) = Suc d" by simp
      ultimately show ?thesis using True up2 by (simp del: power_Suc)
    next
      case False
      then have be: "binary_exponent a b = - int (Suc d) - 1"
        by (simp add: binary_exponent_def e0 Let_def del: of_nat_Suc power_Suc)
      have n: "nat (- binary_exponent a b) = Suc (Suc d)"
        by (simp add: be)
      have "b \<le> a * 2 ^ Suc (Suc d)" using lo2 by simp
      moreover have "a * 2 ^ Suc (Suc d) < 2 * b" using False by simp
      ultimately show ?thesis
        using n be by (simp del: power_Suc)
    qed
  qed
qed

lemma binary_exponent_bounds:
  assumes "0 < a" "0 < b"
  shows "2 powi binary_exponent a b \<le> (of_nat a / of_nat b :: rat)
       \<and> (of_nat a / of_nat b :: rat) < 2 powi (binary_exponent a b + 1)"
proof -
  let ?e = "binary_exponent a b"
  have bpos: "(0::rat) < of_nat b" using assms(2) by simp
  have step: "(2::rat) powi (?e + 1) = 2 powi ?e * 2"
    by (simp add: power_int_add)
  show ?thesis
  proof (cases "0 \<le> ?e")
    case True
    let ?k = "nat ?e"
    have p: "(2::rat) powi ?e = 2 ^ ?k"
      using True by (simp add: power_int_def)
    from binary_exponent_bounds_nat [OF assms] True
    have "b * 2 ^ ?k \<le> a" "a < 2 * (b * 2 ^ ?k)" by simp_all
    then have "(of_nat (b * 2 ^ ?k) :: rat) \<le> of_nat a" "(of_nat a :: rat) < of_nat (2 * (b * 2 ^ ?k))"
      unfolding of_nat_le_iff of_nat_less_iff by simp_all
    then have "(of_nat b :: rat) * 2 ^ ?k \<le> of_nat a" "(of_nat a :: rat) < of_nat b * (2 ^ ?k * 2)"
      by (simp_all add: mult.commute)
    then have "(2::rat) ^ ?k \<le> of_nat a / of_nat b" "(of_nat a :: rat) / of_nat b < 2 ^ ?k * 2"
      using bpos by (simp_all add: pos_le_divide_eq pos_divide_less_eq mult.commute)
    then show ?thesis
      unfolding step p by simp
  next
    case False
    let ?k = "nat (- ?e)"
    have p: "(2::rat) powi ?e = 1 / 2 ^ ?k"
      using False by (simp add: power_int_def field_simps)
    from binary_exponent_bounds_nat [OF assms] False
    have "b \<le> a * 2 ^ ?k" "a * 2 ^ ?k < 2 * b" by simp_all
    then have "(of_nat b :: rat) \<le> of_nat (a * 2 ^ ?k)" "(of_nat (a * 2 ^ ?k) :: rat) < of_nat (2 * b)"
      unfolding of_nat_le_iff of_nat_less_iff by simp_all
    then have "(of_nat b :: rat) \<le> of_nat a * 2 ^ ?k" "(of_nat a :: rat) * 2 ^ ?k < 2 * of_nat b"
      by simp_all
    then have "1 / 2 ^ ?k \<le> (of_nat a :: rat) / of_nat b" "(of_nat a :: rat) / of_nat b < 1 / 2 ^ ?k * 2"
      using bpos by (simp_all add: field_simps)
    then show ?thesis
      unfolding step p by simp
  qed
qed

lemma round_half_even_le:
  assumes "a < N * b"
  shows "round_half_even a b \<le> N"
proof -
  have "0 < b" using assms by (cases "b = 0") simp_all
  have "a div b < N"
    using assms \<open>0 < b\<close> by (simp add: less_mult_imp_div_less)
  then show ?thesis
    by (simp add: round_half_even_def Let_def)
qed

lemma binary64_cases:
  assumes "0 < a"
  obtains n where
    "n = (if ulp_exponent a b \<le> 0 then round_half_even (a * 2 ^ nat (- ulp_exponent a b)) b
          else round_half_even a (b * 2 ^ nat (ulp_exponent a b)))"
    "binary64 a b = (if (2::rat) ^ 1024 \<le> of_nat n * 2 powi ulp_exponent a b then PosInfinity
                     else Fin (of_nat n * 2 powi ulp_exponent a b))"
proof -
  let ?q = "ulp_exponent a b"
  let ?n = "if ?q \<le> 0 then round_half_even (a * 2 ^ nat (- ?q)) b
            else round_half_even a (b * 2 ^ nat ?q)"
  have v: "(if ?q \<le> 0 then of_nat ?n / 2 ^ nat (- ?q) else of_nat ?n * 2 ^ nat ?q)
            = (of_nat ?n * 2 powi ?q :: rat)"
    by (auto simp: power_int_def field_simps)
  have "binary64 a b = (if (2::rat) ^ 1024 \<le> of_nat ?n * 2 powi ?q then PosInfinity
                     else Fin (of_nat ?n * 2 powi ?q))"
    using assms unfolding binary64_def Let_def v by simp
  then show thesis using that by blast
qed

lemma binary64_nearest:
  assumes "0 < a" "0 < b" "binary64 a b = Fin v"
  shows "\<bar>v - of_nat a / of_nat b\<bar> \<le> 2 powi ulp_exponent a b / 2"
proof -
  let ?q = "ulp_exponent a b"
  obtain n where n: "n = (if ?q \<le> 0 then round_half_even (a * 2 ^ nat (- ?q)) b
          else round_half_even a (b * 2 ^ nat ?q))"
    and r: "binary64 a b = (if (2::rat) ^ 1024 \<le> of_nat n * 2 powi ?q then PosInfinity
                     else Fin (of_nat n * 2 powi ?q))"
    using binary64_cases [OF assms(1)] by blast
  from r assms(3) have v: "v = of_nat n * 2 powi ?q"
    by (simp split: if_splits)
  have bpos: "(0::rat) < of_nat b" using assms(2) by simp
  show ?thesis
  proof (cases "?q \<le> 0")
    case True
    let ?k = "nat (- ?q)"
    have p: "(2::rat) powi ?q = 1 / 2 ^ ?k"
      using True by (simp add: power_int_def field_simps)
    have nk: "n = round_half_even (a * 2 ^ ?k) b"
      using n True by simp
    have "\<bar>(of_nat n :: rat) - of_nat (a * 2 ^ ?k) / of_nat b\<bar> \<le> 1 / 2"
      unfolding nk by (rule round_half_even_nearest [OF assms(2)])
    then have "\<bar>(of_nat n :: rat) - of_nat a / of_nat b * 2 ^ ?k\<bar> \<le> 1 / 2"
      by simp
    then have "\<bar>(of_nat n :: rat) - of_nat a / of_nat b * 2 ^ ?k\<bar> / 2 ^ ?k \<le> 1 / 2 / 2 ^ ?k"
      by (rule divide_right_mono) simp
    moreover have "\<bar>(of_nat n :: rat) - of_nat a / of_nat b * 2 ^ ?k\<bar> / 2 ^ ?k
                 = \<bar>of_nat n / 2 ^ ?k - of_nat a / of_nat b\<bar>"
    proof -
      have "\<bar>(of_nat n :: rat) - of_nat a / of_nat b * 2 ^ ?k\<bar> / 2 ^ ?k
            = \<bar>((of_nat n :: rat) - of_nat a / of_nat b * 2 ^ ?k) / 2 ^ ?k\<bar>"
        by simp
      also have "((of_nat n :: rat) - of_nat a / of_nat b * 2 ^ ?k) / 2 ^ ?k
            = of_nat n / 2 ^ ?k - of_nat a / of_nat b"
        by (simp add: diff_divide_distrib)
      finally show ?thesis .
    qed
    ultimately show ?thesis
      by (simp add: v p)
  next
    case False
    let ?k = "nat ?q"
    have p: "(2::rat) powi ?q = 2 ^ ?k"
      using False by (simp add: power_int_def)
    have bk: "0 < b * 2 ^ ?k" using assms(2) by simp
    have nk: "n = round_half_even a (b * 2 ^ ?k)"
      using n False by simp
    have "\<bar>(of_nat n :: rat) - of_nat a / of_nat (b * 2 ^ ?k)\<bar> \<le> 1 / 2"
      unfolding nk by (rule round_half_even_nearest [OF bk])
    then have B: "\<bar>(of_nat n :: rat) - of_nat a / of_nat (b * 2 ^ ?k)\<bar> * 2 ^ ?k \<le> 1 / 2 * 2 ^ ?k"
      by (rule mult_right_mono) simp
    have C: "\<bar>(of_nat n :: rat) - of_nat a / of_nat (b * 2 ^ ?k)\<bar> * 2 ^ ?k
                 = \<bar>of_nat n * 2 ^ ?k - of_nat a / of_nat b\<bar>"
    proof -
      have "\<bar>(of_nat n :: rat) - of_nat a / of_nat (b * 2 ^ ?k)\<bar> * 2 ^ ?k
            = \<bar>((of_nat n :: rat) - of_nat a / of_nat (b * 2 ^ ?k)) * 2 ^ ?k\<bar>"
        by (simp add: abs_mult)
      also have "((of_nat n :: rat) - of_nat a / of_nat (b * 2 ^ ?k)) * 2 ^ ?k
            = of_nat n * 2 ^ ?k - of_nat a / of_nat b"
        by (simp add: left_diff_distrib)
      finally show ?thesis .
    qed
    have "\<bar>(of_nat n :: rat) * 2 ^ ?k - of_nat a / of_nat b\<bar> \<le> 1 / 2 * 2 ^ ?k"
      using B unfolding C .
    then show ?thesis
      unfolding v p by simp
  qed
qed

lemma binary64_significand:
  assumes "0 < a" "0 < b" "binary64 a b = Fin v"
  shows "\<exists>n. n \<le> 2 ^ 53 \<and> v = of_nat n * 2 powi ulp_exponent a b"
proof -
  let ?q = "ulp_exponent a b"
  let ?e = "binary_exponent a b"
  obtain n where n: "n = (if ?q \<le> 0 then round_half_even (a * 2 ^ nat (- ?q)) b
          else round_half_even a (b * 2 ^ nat ?q))"
    and r: "binary64 a b = (if (2::rat) ^ 1024 \<le> of_nat n * 2 powi ?q then PosInfinity
                     else Fin (of_nat n * 2 powi ?q))"
    using binary64_cases [OF assms(1)] by blast
  from r assms(3) have v: "v = of_nat n * 2 powi ?q"
    by (simp split: if_splits)
  have bpos: "(0::rat) < of_nat b" using assms(2) by simp
  have "?e + 1 \<le> ?q + 53"
    by (simp add: ulp_exponent_def)
  then have "(2::rat) powi (?e + 1) \<le> 2 powi (?q + 53)"
    by (intro power_int_increasing) simp_all
  also have "(2::rat) powi (?q + 53) = 2 powi ?q * 2 ^ 53"
    by (simp add: power_int_add)
  finally have up: "(of_nat a / of_nat b :: rat) < 2 powi ?q * 2 ^ 53"
    using binary_exponent_bounds [OF assms(1,2)] by simp
  have "n \<le> 2 ^ 53"
  proof (cases "?q \<le> 0")
    case True
    let ?k = "nat (- ?q)"
    have p: "(2::rat) powi ?q = 1 / 2 ^ ?k"
      using True by (simp add: power_int_def field_simps)
    from up have "(of_nat a :: rat) * 2 ^ ?k < 2 ^ 53 * of_nat b"
      unfolding p using bpos by (simp add: field_simps)
    then have "(of_nat (a * 2 ^ ?k) :: rat) < of_nat (2 ^ 53 * b)"
      by simp
    then have "a * 2 ^ ?k < 2 ^ 53 * b"
      unfolding of_nat_less_iff .
    then have "round_half_even (a * 2 ^ ?k) b \<le> 2 ^ 53"
      by (rule round_half_even_le)
    then show ?thesis using n True by simp
  next
    case False
    let ?k = "nat ?q"
    have p: "(2::rat) powi ?q = 2 ^ ?k"
      using False by (simp add: power_int_def)
    from up have "(of_nat a :: rat) < 2 ^ 53 * (of_nat b * 2 ^ ?k)"
      unfolding p using bpos by (simp add: field_simps)
    then have "(of_nat a :: rat) < of_nat (2 ^ 53 * (b * 2 ^ ?k))"
      by simp
    then have "a < 2 ^ 53 * (b * 2 ^ ?k)"
      unfolding of_nat_less_iff .
    then have "round_half_even a (b * 2 ^ ?k) \<le> 2 ^ 53"
      by (rule round_half_even_le)
    then show ?thesis using n False by simp
  qed
  with v show ?thesis by blast
qed

lemma round_half_even_ge:
  assumes "0 < b" "N * b \<le> a"
  shows "N \<le> round_half_even a b"
proof -
  have "N \<le> a div b"
    using assms by (simp add: less_eq_div_iff_mult_less_eq)
  then show ?thesis
    by (simp add: round_half_even_def Let_def)
qed

lemma round_half_even_zero:
  assumes "2 * a \<le> b"
  shows "round_half_even a b = 0"
proof (cases "a = 0")
  case True
  then show ?thesis by (simp add: round_half_even_def)
next
  case False
  with assms have "a < b" by simp
  then show ?thesis
    using assms by (simp add: round_half_even_def Let_def)
qed

lemma binary64_underflow:
  assumes "0 < a" "a * 2 ^ 1075 \<le> b"
  shows "binary64 a b = Fin 0"
proof -
  let ?e = "binary_exponent a b"
  define K :: nat where "K = 1075"
  have b: "0 < b" using assms by (cases "b = 0") simp_all
  have bpos: "(0::rat) < of_nat b" using b by simp
  have "a * 2 ^ K \<le> b"
    using assms(2) by (simp only: K_def)
  then have "(of_nat (a * 2 ^ K) :: rat) \<le> of_nat b"
    unfolding of_nat_le_iff .
  then have "(of_nat a :: rat) * 2 ^ K \<le> of_nat b" by simp
  then have "(of_nat a / of_nat b :: rat) \<le> 1 / 2 ^ K"
    using bpos by (simp add: field_simps)
  also have "1 / 2 ^ K = (2::rat) powi (- int K)"
    by (simp add: power_int_minus divide_inverse)
  finally have small: "(of_nat a / of_nat b :: rat) \<le> 2 powi (- int K)" .
  have "?e \<le> - 1075"
  proof (rule ccontr)
    assume "\<not> ?e \<le> - 1075"
    then have "- int K + 1 \<le> ?e" by (simp add: K_def)
    then have "(2::rat) powi (- int K + 1) \<le> 2 powi ?e"
      by (intro power_int_increasing) simp_all
    also have "\<dots> \<le> of_nat a / of_nat b"
      using binary_exponent_bounds [OF assms(1) b] by simp
    also note small
    finally have "(2::rat) powi (- int K + 1) \<le> 2 powi (- int K)" .
    moreover have "(2::rat) powi (- int K) < 2 powi (- int K + 1)"
      by (intro power_int_strict_increasing) simp_all
    ultimately show False by simp
  qed
  then have q: "ulp_exponent a b = - 1074"
    by (simp add: ulp_exponent_def)
  have "2 * (a * 2 ^ 1074) \<le> b" using assms(2) by simp
  then have z: "round_half_even (a * 2 ^ 1074) b = 0"
    by (rule round_half_even_zero)
  obtain n where n: "n = (if ulp_exponent a b \<le> 0
          then round_half_even (a * 2 ^ nat (- ulp_exponent a b)) b
          else round_half_even a (b * 2 ^ nat (ulp_exponent a b)))"
    and r: "binary64 a b =
       (if (2::rat) ^ 1024 \<le> of_nat n * 2 powi ulp_exponent a b then PosInfinity
        else Fin (of_nat n * 2 powi ulp_exponent a b))"
    using binary64_cases [OF assms(1)] by blast
  have "n = round_half_even (a * 2 ^ 1074) b"
    using n q by simp
  then have "n = 0" by (simp only: z)
  with r show ?thesis by simp
qed

lemma binary64_overflow:
  assumes "0 < b" "2 ^ 1024 * b \<le> a"
  shows "binary64 a b = PosInfinity"
proof -
  let ?e = "binary_exponent a b"
  let ?q = "ulp_exponent a b"
  have a: "0 < a" using assms by (cases "a = 0") simp_all
  have bpos: "(0::rat) < of_nat b" using assms(1) by simp
  have "(of_nat (2 ^ 1024 * b) :: rat) \<le> of_nat a"
    using assms(2) unfolding of_nat_le_iff .
  then have "(2::rat) ^ 1024 * of_nat b \<le> of_nat a" by simp
  then have big: "(2::rat) ^ 1024 \<le> of_nat a / of_nat b"
    using bpos by (simp add: field_simps)
  have e: "1024 \<le> ?e"
  proof (rule ccontr)
    assume "\<not> 1024 \<le> ?e"
    then have "?e + 1 \<le> 1024" by simp
    then have "(2::rat) powi (?e + 1) \<le> 2 powi 1024"
      by (intro power_int_increasing) simp_all
    moreover have "(of_nat a / of_nat b :: rat) < 2 powi (?e + 1)"
      using binary_exponent_bounds [OF a assms(1)] by simp
    ultimately have "(of_nat a / of_nat b :: rat) < 2 powi 1024" by simp
    with big show False by (simp add: power_int_def)
  qed
  then have q: "?q = ?e - 52" by (simp add: ulp_exponent_def)
  let ?k = "nat ?q"
  have qpos: "0 < ?q" using e q by simp
  have p: "(2::rat) powi ?q = 2 ^ ?k"
    using qpos by (simp add: power_int_def)
  have pe: "(2::rat) powi ?e = 2 ^ 52 * 2 ^ ?k"
  proof -
    have "?e = 52 + ?q" using q by simp
    then have "(2::rat) powi ?e = 2 powi 52 * 2 powi ?q"
      by (simp add: power_int_add)
    then show ?thesis by (simp add: p)
  qed
  have "(2::rat) ^ 52 * 2 ^ ?k \<le> of_nat a / of_nat b"
    using binary_exponent_bounds [OF a assms(1)] pe by simp
  then have "(2::rat) ^ 52 * (of_nat b * 2 ^ ?k) \<le> of_nat a"
    using bpos by (simp add: field_simps)
  then have "(of_nat (2 ^ 52 * (b * 2 ^ ?k)) :: rat) \<le> of_nat a" by simp
  then have "2 ^ 52 * (b * 2 ^ ?k) \<le> a"
    unfolding of_nat_le_iff .
  moreover have "0 < b * 2 ^ ?k" using assms(1) by simp
  ultimately have n: "2 ^ 52 \<le> round_half_even a (b * 2 ^ ?k)"
    by (intro round_half_even_ge)
  obtain n where n_def: "n = (if ?q \<le> 0 then round_half_even (a * 2 ^ nat (- ?q)) b
          else round_half_even a (b * 2 ^ nat ?q))"
    and r: "binary64 a b = (if (2::rat) ^ 1024 \<le> of_nat n * 2 powi ?q then PosInfinity
                     else Fin (of_nat n * 2 powi ?q))"
    using binary64_cases [OF a] by blast
  have "2 ^ 52 \<le> n" using n n_def qpos by simp
  then have "(of_nat (2 ^ 52) :: rat) \<le> of_nat n"
    unfolding of_nat_le_iff .
  then have "(2::rat) ^ 52 * 2 ^ ?k \<le> of_nat n * 2 ^ ?k"
    by (intro mult_right_mono) simp_all
  moreover have "(2::rat) ^ 1024 \<le> 2 ^ 52 * 2 ^ ?k"
  proof -
    have h: "(2::rat) powi 1024 \<le> 2 powi ?e"
      using e by (intro power_int_increasing) simp_all
    have "(2::rat) powi 1024 = 2 ^ 1024" by simp
    with h show ?thesis unfolding pe by simp
  qed
  ultimately have "(2::rat) ^ 1024 \<le> of_nat n * 2 powi ?q"
    unfolding p by linarith
  with r show ?thesis by simp
qed

text \<open>
  Some strings: the two coordinates of the concrete runs, an integer beyond
  \<open>2 ^ 53\<close>, a decimal longer than binary64 can tell from \<open>40.7589\<close>, and two
  decimals out of the range of binary64.
\<close>

lemmas parseFloat_defs =
  parseFloat_def trim_start_def is_white_space_def str_unsigned_decimal_def is_digit_def
  digits_value_def exponent_part_def number_of_decimal_def binary64_def binary_exponent_def
  ulp_exponent_def round_half_even_def bit_length.simps Let_def

lemma parseFloat_latitude: "parseFloat ''40.7589'' = Fin (2868152607062989 / 70368744177664)"
  by (simp add: parseFloat_defs)

lemma parseFloat_longitude: "parseFloat '' -73.9851'' = Fin (- (5206238574858889 / 70368744177664))"
  by (simp add: parseFloat_defs)

lemma parseFloat_beyond_2_53: "parseFloat ''9007199254740993'' = Fin 9007199254740992"
  by (simp add: parseFloat_defs)

lemma parseFloat_long_decimal: "parseFloat ''40.758900000000000001'' = Fin (2868152607062989 / 70368744177664)"
  by (simp add: parseFloat_defs)

lemma parseFloat_tiny: "parseFloat ''1e-400'' = Fin 0"
proof -
  have d: "str_unsigned_decimal ''1e-400'' = binary64 1 (10 ^ 400)"
    by (simp add: str_unsigned_decimal_def is_digit_def digits_value_def exponent_part_def
        number_of_decimal_def Let_def)
  have "binary64 1 (10 ^ 400) = Fin 0"
    by (rule binary64_underflow) simp_all
  with d show ?thesis
    by (simp add: parseFloat_def trim_start_def is_white_space_def)
qed

lemma parseFloat_huge: "parseFloat ''1e400'' = PosInfinity"
proof -
  have d: "str_unsigned_decimal ''1e400'' = binary64 (10 ^ 400) 1"
    by (simp add: str_unsigned_decimal_def is_digit_def digits_value_def exponent_part_def
        number_of_decimal_def Let_def)
  have "binary64 (10 ^ 400) 1 = PosInfinity"
    by (rule binary64_overflow) simp_all
  with d show ?thesis
    by (simp add: parseFloat_def trim_start_def is_white_space_def)
qed

subsection \<open>Facts about the handlers\<close>

text \<open>A value whose \<open>response\<close> could be read is not \<open>null\<close>: no later read throws.\<close>

lemma get_property_no_throw:
  "get_property d a = Inr r \<Longrightarrow> \<exists>v. get_property d b = Inr v"
  by (cases d) simp_all

lemma messages_append_bot_message:
  "messages (append_bot_message st c v) =
     messages st @ [\<lparr>msg_id = now c + 1, msg_type = Bot, content = v, timestamp = localeTime c\<rparr>]"
  by (simp add: append_bot_message_def)

lemma settle_appends_one_bot:
  "\<exists>b. messages (handleSendMessage_settle st res c) = messages st @ [b] \<and> msg_type b = Bot"
proof (cases "chat_data res")
  case (Inl e)
  then show ?thesis
    by (simp add: handleSendMessage_settle_def messages_append_bot_message)
next
  case (Inr data)
  show ?thesis
  proof (cases "get_property data ''response''")
    case (Inl e)
    with Inr show ?thesis
      by (simp add: handleSendMessage_settle_def messages_append_bot_message)
  next
    case r: (Inr r)
    then obtain evs where "get_property data ''recommended_events'' = Inr evs"
      using get_property_no_throw by blast
    with Inr r show ?thesis
      by (simp add: handleSendMessage_settle_def messages_append_bot_message)
  qed
qed

lemma settle_failure:
  assumes "chat_data res = Inl e"
  shows "handleSendMessage_settle st res c =
           st\<lparr>messages := messages st @
                 [\<lparr>msg_id = now c + 1, msg_type = Bot, content = JStr apology,
                   timestamp = localeTime c\<rparr>],
              isLoading := False\<rparr>"
  using assms by (simp add: handleSendMessage_settle_def append_bot_message_def)

lemma begin_prefix:
  "handleSendMessage_begin st c = Some (st1, rq) \<Longrightarrow> prefix (messages st) (messages st1)"
  by (auto simp: handleSendMessage_begin_def split: if_splits)

lemma settle_prefix: "prefix (messages st) (messages (handleSendMessage_settle st res c))"
  by (simp add: handleSendMessage_settle_def messages_append_bot_message
      split: sum.splits)

lemma settle_recommendedEvents:
  "recommendedEvents (handleSendMessage_settle st res c) =
     (case res of
        Response True (Some data) \<Rightarrow>
          (case get_property data ''recommended_events'' of
             Inr evs \<Rightarrow> js_or evs (JArr [])
           | Inl e \<Rightarrow> recommendedEvents st)
      | _ \<Rightarrow> recommendedEvents st)"
proof (cases res)
  case Rejected
  then show ?thesis
    by (simp add: handleSendMessage_settle_def append_bot_message_def)
next
  case (Response ok b)
  show ?thesis
  proof (cases "ok \<and> b \<noteq> None")
    case False
    with Response show ?thesis
      by (auto simp: handleSendMessage_settle_def append_bot_message_def)
  next
    case True
    then obtain data where "b = Some data" "ok" by auto
    with Response show ?thesis
      by (cases data)
        (simp_all add: handleSendMessage_settle_def append_bot_message_def)
  qed
qed

lemma second_question_recommendations:
  "recommendedEvents second_question_state = JArr [jazz_night]"
  using trim_greeting
  by (simp add: second_question_state_def handleSendMessage_def handleSendMessage_begin_def
      settle_recommendedEvents jazz_reply_def js_or_def)

lemma SerializeJSONArray_strings: "SerializeJSONArray (map JStr ps) = map JStr ps"
  by (induction ps) simp_all

lemma body_chat_request:
  "body (chat_request st) =
     Some (JObj
       (case userLocation st of
          None \<Rightarrow>
            [(''message'', JStr (inputMessage st)),
             (''preferences'', JArr (map JStr (preferences st)))]
        | Some loc \<Rightarrow>
            [(''message'', JStr (inputMessage st)),
             (''latitude'', JNum (Fin (location.latitude loc))),
             (''longitude'', JNum (Fin (location.longitude loc))),
             (''preferences'', JArr (map JStr (preferences st)))]))"
  by (simp add: chat_request_def chat_payload_def JSON_stringify_def
      SerializeJSONArray_strings split: option.splits)

lemma handleAddEvent_requests:
  "\<exists>rqs. snd (handleAddEvent st post get) = add_event_request st # rqs"
  by (cases post) (simp_all add: handleAddEvent_def split: prod.splits)

lemma body_add_event_request:
  "body (add_event_request st) =
     Some (JObj [(''title'', JStr (title (newEvent st))),
                 (''description'', JStr (description (newEvent st))),
                 (''category'', JStr (category (newEvent st))),
                 (''date'', JStr (date (newEvent st))),
                 (''time'', JStr (time (newEvent st))),
                 (''location'', JStr (new_event.location (newEvent st))),
                 (''address'', JStr (address (newEvent st))),
                 (''latitude'',
                    (case parseFloat (new_event.latitude (newEvent st)) of
                       Fin r \<Rightarrow> JNum (Fin r) | _ \<Rightarrow> JNull)),
                 (''longitude'',
                    (case parseFloat (new_event.longitude (newEvent st)) of
                       Fin r \<Rightarrow> JNum (Fin r) | _ \<Rightarrow> JNull)),
                 (''organizer'', JStr (organizer (newEvent st))),
                 (''price'', JStr (price (newEvent st))),
                 (''image_url'', JStr (image_url (newEvent st)))])"
  by (simp add: add_event_request_def eventData_def JSON_stringify_def)

lemma addPreference_distinct:
  "distinct (preferences st) \<Longrightarrow> distinct (preferences (addPreference st cat))"
  by (simp add: addPreference_def)

lemma removePreference_distinct:
  "distinct (preferences st) \<Longrightarrow> distinct (preferences (removePreference st cat))"
  by (simp add: removePreference_def)

lemma preference_step_distinct:
  "distinct (preferences st) \<Longrightarrow> distinct (preferences (preference_step st a))"
  by (cases a) (simp_all add: addPreference_distinct removePreference_distinct)

lemma preference_calls_distinct:
  "distinct (preferences st) \<Longrightarrow> distinct (preferences (preference_calls st cs))"
  unfolding preference_calls_def
  by (induction cs arbitrary: st) (simp_all add: preference_step_distinct)

subsection \<open>Chat: the failure path\<close>

text \<open>
  C1. A send of an input that does not trim to the empty string, whose fetch rejects or
  whose response is not ok, issues the one chat request and nothing more, and leaves
  the messages with the user's message and one bot message appended, whose content is
  the fixed apology: the state reached is the same for every such failure, so nothing
  of the failure is shown.
\<close>

theorem send_failure_apology:
  assumes "trim (inputMessage st) \<noteq> []"
    and "res = Rejected \<or> res = Response False b"
  shows "handleSendMessage st c res c' =
           (st\<lparr>messages := messages st @
                  [\<lparr>msg_id = now c, msg_type = User, content = JStr (inputMessage st),
                    timestamp = localeTime c\<rparr>,
                   \<lparr>msg_id = now c' + 1, msg_type = Bot,
                    content =
                      JStr ''I'm sorry, I'm having trouble connecting right now. Please try again in a moment.'',
                    timestamp = localeTime c'\<rparr>],
               inputMessage := '''',
               isLoading := False\<rparr>,
            [chat_request st])"
proof -
  from assms(2) obtain e where "chat_data res = Inl e"
    by auto
  then show ?thesis
    using assms(1)
    by (simp add: handleSendMessage_def handleSendMessage_begin_def settle_failure apology_def)
qed

theorem send_failure_apology_witness:
  "trim (inputMessage greeting_state) \<noteq> []
   \<and> handleSendMessage greeting_state noon (Response False (Some jazz_reply)) noon_later =
       (greeting_state\<lparr>messages := [welcome_message first_render,
             \<lparr>msg_id = 1700000000000, msg_type = User, content = JStr ''jazz tonight?'',
              timestamp = ''12:00:00 PM''\<rparr>,
             \<lparr>msg_id = 1700000000451, msg_type = Bot,
              content =
                JStr ''I'm sorry, I'm having trouble connecting right now. Please try again in a moment.'',
              timestamp = ''12:00:01 PM''\<rparr>],
          inputMessage := '''',
          isLoading := False\<rparr>,
        [chat_request greeting_state])"
proof -
  have t: "trim (inputMessage greeting_state) \<noteq> []"
    using trim_greeting by simp
  have m: "messages greeting_state = [welcome_message first_render]"
    "inputMessage greeting_state = ''jazz tonight?''"
    by (simp_all add: greeting_state_def mounted_state_eq)
  from send_failure_apology
    [OF t, of "Response False (Some jazz_reply)" "Some jazz_reply" noon noon_later] t m
  show ?thesis
    by (simp add: noon_def noon_later_def)
qed

subsection \<open>Chat: one user message and one bot message a turn\<close>

text \<open>
  C2. A send of an input that does not trim to the empty string appends exactly two
  messages, the first of type user and the second of type bot, whatever the outcome of
  the request.
\<close>

theorem send_appends_one_user_one_bot:
  assumes "trim (inputMessage st) \<noteq> []"
  shows "\<exists>u b. messages (fst (handleSendMessage st c res c')) = messages st @ [u, b]
           \<and> msg_type u = User \<and> msg_type b = Bot"
proof -
  let ?u = "\<lparr>msg_id = now c, msg_type = User, content = JStr (inputMessage st),
             timestamp = localeTime c\<rparr>"
  let ?st1 = "st\<lparr>messages := messages st @ [?u], inputMessage := '''', isLoading := True\<rparr>"
  obtain b where b: "messages (handleSendMessage_settle ?st1 res c') = messages ?st1 @ [b]"
    "msg_type b = Bot"
    using settle_appends_one_bot by blast
  have "messages (fst (handleSendMessage st c res c')) = messages st @ [?u, b]"
    using assms b(1) by (simp add: handleSendMessage_def handleSendMessage_begin_def)
  with b(2) show ?thesis
    by (intro exI [of _ ?u] exI [of _ b]) simp
qed

theorem send_appends_one_user_one_bot_witness:
  "trim (inputMessage greeting_state) \<noteq> []
   \<and> (\<exists>u b. messages (fst (handleSendMessage greeting_state noon
                 (Response True (Some jazz_reply)) noon_later))
               = [welcome_message first_render, u, b]
         \<and> msg_type u = User \<and> msg_type b = Bot)"
proof -
  have t: "trim (inputMessage greeting_state) \<noteq> []"
    using trim_greeting by simp
  have m: "messages greeting_state = [welcome_message first_render]"
    by (simp add: greeting_state_def mounted_state_eq)
  from send_appends_one_user_one_bot
    [OF t, of noon "Response True (Some jazz_reply)" noon_later] t m
  show ?thesis by simp
qed

subsection \<open>Chat: the messages only grow at the end\<close>

text \<open>
  C3. Each update of the messages by handleSendMessage (the one before the request, the
  one after it, and so the whole call) keeps the messages that were there, in their
  order, as a prefix of the new list.
\<close>

theorem messages_append_only:
  "(\<forall>st1 rq. handleSendMessage_begin st c = Some (st1, rq) \<longrightarrow>
       prefix (messages st) (messages st1))
   \<and> prefix (messages st) (messages (handleSendMessage_settle st res c'))
   \<and> prefix (messages st) (messages (fst (handleSendMessage st c res c')))"
proof (intro conjI allI impI)
  fix st1 rq
  assume "handleSendMessage_begin st c = Some (st1, rq)"
  then show "prefix (messages st) (messages st1)"
    by (rule begin_prefix)
next
  show "prefix (messages st) (messages (handleSendMessage_settle st res c'))"
    by (rule settle_prefix)
next
  show "prefix (messages st) (messages (fst (handleSendMessage st c res c')))"
  proof (cases "handleSendMessage_begin st c")
    case None
    then show ?thesis by (simp add: handleSendMessage_def)
  next
    case (Some p)
    obtain st1 rq where p: "p = (st1, rq)" by (cases p)
    have "prefix (messages st) (messages st1)"
      using Some p begin_prefix by simp
    moreover have "prefix (messages st1) (messages (handleSendMessage_settle st1 res c'))"
      by (rule settle_prefix)
    ultimately show ?thesis
      using Some p by (auto simp: handleSendMessage_def)
  qed
qed

theorem messages_append_only_witness:
  "handleSendMessage_begin second_question_state noon =
     Some (second_question_state\<lparr>messages := messages second_question_state @
               [\<lparr>msg_id = 1700000000000, msg_type = User, content = JStr ''anything else?'',
                 timestamp = ''12:00:00 PM''\<rparr>],
             inputMessage := '''', isLoading := True\<rparr>, chat_request second_question_state)
   \<and> prefix (messages second_question_state)
        (messages second_question_state @
           [\<lparr>msg_id = 1700000000000, msg_type = User, content = JStr ''anything else?'',
             timestamp = ''12:00:00 PM''\<rparr>])"
proof -
  have i: "inputMessage second_question_state = ''anything else?''"
    by (simp add: second_question_state_def)
  have b: "handleSendMessage_begin second_question_state noon =
     Some (second_question_state\<lparr>messages := messages second_question_state @
               [\<lparr>msg_id = 1700000000000, msg_type = User, content = JStr ''anything else?'',
                 timestamp = ''12:00:00 PM''\<rparr>],
             inputMessage := '''', isLoading := True\<rparr>, chat_request second_question_state)"
    using trim_second_question i
    by (simp add: handleSendMessage_begin_def noon_def)
  from messages_append_only [of second_question_state noon Rejected noon_later] b
  show ?thesis by simp
qed

subsection \<open>Preferences hold no category twice\<close>

text \<open>
  C4. After any sequence of addPreference and removePreference calls from the first
  state, the preferences are pairwise distinct; and addPreference with a category
  that is already among them leaves the state as it was.
\<close>

theorem preferences_never_duplicate:
  "distinct (preferences (preference_calls initial_state cs))
   \<and> (cat \<in> set (preferences st) \<longrightarrow> addPreference st cat = st)"
proof
  have "distinct (preferences initial_state)"
    by (simp add: initial_state_def)
  then show "distinct (preferences (preference_calls initial_state cs))"
    by (rule preference_calls_distinct)
next
  show "cat \<in> set (preferences st) \<longrightarrow> addPreference st cat = st"
    by (simp add: addPreference_def)
qed

theorem preferences_never_duplicate_witness:
  "''Music'' \<in> set (preferences music_state)
   \<and> addPreference music_state ''Music'' = music_state
   \<and> distinct (preferences (preference_calls initial_state
        [AddPreference ''Music'', AddPreference ''Music'', RemovePreference ''Music'',
         AddPreference ''Community'']))"
proof -
  have m: "''Music'' \<in> set (preferences music_state)"
    by (simp add: music_state_def)
  from preferences_never_duplicate
    [of "[AddPreference ''Music'', AddPreference ''Music'', RemovePreference ''Music'',
          AddPreference ''Community'']" "''Music''" music_state] m
  show ?thesis by simp
qed

subsection \<open>Admin form: what handleAddEvent sends\<close>

text \<open>
  C5, as the code has it. Every call of handleAddEvent sends the POST request to
  /api/events first, whatever the two coordinate strings are: there is no check that
  they parse. In its body the latitude and the longitude are what parseFloat makes of
  the form's strings (the binary64 value of the decimal at their start), written as
  that number when it is finite and as null when it is NaN (or an infinity); the other
  fields are the form's strings.
\<close>

theorem add_event_sends_parseFloat_of_form:
  "(\<exists>rqs. snd (handleAddEvent st post get) = add_event_request st # rqs)
   \<and> url (add_event_request st) = ''/api/events''
   \<and> http_method (add_event_request st) = ''POST''
   \<and> body (add_event_request st) =
     Some (JObj [(''title'', JStr (title (newEvent st))),
                 (''description'', JStr (description (newEvent st))),
                 (''category'', JStr (category (newEvent st))),
                 (''date'', JStr (date (newEvent st))),
                 (''time'', JStr (time (newEvent st))),
                 (''location'', JStr (new_event.location (newEvent st))),
                 (''address'', JStr (address (newEvent st))),
                 (''latitude'',
                    (case parseFloat (new_event.latitude (newEvent st)) of
                       Fin r \<Rightarrow> JNum (Fin r) | _ \<Rightarrow> JNull)),
                 (''longitude'',
                    (case parseFloat (new_event.longitude (newEvent st)) of
                       Fin r \<Rightarrow> JNum (Fin r) | _ \<Rightarrow> JNull)),
                 (''organizer'', JStr (organizer (newEvent st))),
                 (''price'', JStr (price (newEvent st))),
                 (''image_url'', JStr (image_url (newEvent st)))])"
  using handleAddEvent_requests [of st post get] body_add_event_request [of st]
  by (simp add: add_event_request_def)

text \<open>
  The form with \<open>40.7589\<close> and \<open>-73.9851\<close> typed in: the body carries the two
  binary64 values nearest to them, \<open>2868152607062989 / 2 ^ 46\<close> and
  \<open>- 5206238574858889 / 2 ^ 46\<close>.
\<close>

theorem add_event_sends_parseFloat_of_form_witness:
  "(\<exists>rqs. snd (handleAddEvent filled_form_state (Response False None) Rejected) =
       add_event_request filled_form_state # rqs)
   \<and> body (add_event_request filled_form_state) =
     Some (JObj [(''title'', JStr ''Jazz Night''), (''description'', JStr ''''),
                 (''category'', JStr ''''), (''date'', JStr ''''), (''time'', JStr ''''),
                 (''location'', JStr ''''), (''address'', JStr ''''),
                 (''latitude'', JNum (Fin (2868152607062989 / 70368744177664))),
                 (''longitude'', JNum (Fin (- (5206238574858889 / 70368744177664)))),
                 (''organizer'', JStr ''''), (''price'', JStr ''Free''),
                 (''image_url'', JStr '''')])"
proof -
  have f: "newEvent filled_form_state =
      blank_event\<lparr>title := ''Jazz Night'', latitude := ''40.7589'', longitude := '' -73.9851''\<rparr>"
    by (simp add: filled_form_state_def)
  from add_event_sends_parseFloat_of_form [of filled_form_state "Response False None" Rejected]
  show ?thesis
    by (simp add: f blank_event_def parseFloat_latitude parseFloat_longitude)
qed

text \<open>
  C5, as stated, fails on the form as the dialog first shows it: neither coordinate string parses
  (parseFloat gives NaN for the empty string), and still the request goes out, with
  null for both coordinates.
\<close>

theorem add_event_unparsed_counterexample:
  "parseFloat (new_event.latitude (newEvent open_form_state)) = NaN
   \<and> parseFloat (new_event.longitude (newEvent open_form_state)) = NaN
   \<and> snd (handleAddEvent open_form_state (Response True None) Rejected) =
       [\<lparr>url = ''/api/events'', http_method = ''POST'',
         headers = [(''Content-Type'', ''application/json'')],
         body = Some (JObj [(''title'', JStr ''''), (''description'', JStr ''''),
                  (''category'', JStr ''''), (''date'', JStr ''''), (''time'', JStr ''''),
                  (''location'', JStr ''''), (''address'', JStr ''''),
                  (''latitude'', JNull), (''longitude'', JNull),
                  (''organizer'', JStr ''''), (''price'', JStr ''Free''),
                  (''image_url'', JStr '''')])\<rparr>,
        events_request]"
  by (simp add: parseFloat_empty handleAddEvent_def fetchEvents_def add_event_request_def
      eventData_def JSON_stringify_def json_headers_def open_form_state_def mounted_state_eq
      blank_event_def)

subsection \<open>Chat: the body of the request\<close>

text \<open>
  C6, as the code has it. A send of an input that does not trim to the empty string
  issues one POST request to /api/chat. Its body holds the message (the input at the
  send) and the preferences (the current list); when the user location is set it
  holds, between them, the latitude and the longitude of that location; while the user
  location is still null the two are undefined and the body holds no such fields.
\<close>

theorem chat_request_body:
  assumes "trim (inputMessage st) \<noteq> []"
  shows "snd (handleSendMessage st c res c') = [chat_request st]
    \<and> url (chat_request st) = ''/api/chat''
    \<and> http_method (chat_request st) = ''POST''
    \<and> body (chat_request st) =
     Some (JObj
       (case userLocation st of
          None \<Rightarrow>
            [(''message'', JStr (inputMessage st)),
             (''preferences'', JArr (map JStr (preferences st)))]
        | Some loc \<Rightarrow>
            [(''message'', JStr (inputMessage st)),
             (''latitude'', JNum (Fin (location.latitude loc))),
             (''longitude'', JNum (Fin (location.longitude loc))),
             (''preferences'', JArr (map JStr (preferences st)))]))"
proof -
  have "snd (handleSendMessage st c res c') = [chat_request st]"
    using assms by (simp add: handleSendMessage_def handleSendMessage_begin_def)
  moreover have "url (chat_request st) = ''/api/chat''" "http_method (chat_request st) = ''POST''"
    by (simp_all add: chat_request_def)
  ultimately show ?thesis
    using body_chat_request [of st] by simp
qed

theorem chat_request_body_witness:
  "trim (inputMessage (requestLocation greeting_state PositionError)) \<noteq> []
   \<and> snd (handleSendMessage (requestLocation greeting_state PositionError) noon Rejected noon_later)
       = [chat_request (requestLocation greeting_state PositionError)]
   \<and> body (chat_request (requestLocation greeting_state PositionError)) =
       Some (JObj [(''message'', JStr ''jazz tonight?''),
                   (''latitude'', JNum (Fin 40.7589)),
                   (''longitude'', JNum (Fin (- 73.9851))),
                   (''preferences'', JArr [])])"
proof -
  have t: "trim (inputMessage (requestLocation greeting_state PositionError)) \<noteq> []"
    using trim_greeting by simp
  from chat_request_body [OF t, of noon Rejected noon_later] t
  show ?thesis
    by (simp add: default_location_def greeting_state_def mounted_state_eq)
qed

text \<open>
  C6, as stated, fails for a send before the geolocation request has answered: the body
  has the message and the preferences only.
\<close>

theorem chat_request_without_location_counterexample:
  "userLocation greeting_state = None
   \<and> snd (handleSendMessage greeting_state noon Rejected noon_later) =
       [\<lparr>url = ''/api/chat'', http_method = ''POST'',
         headers = [(''Content-Type'', ''application/json'')],
         body = Some (JObj [(''message'', JStr ''jazz tonight?''),
                            (''preferences'', JArr [])])\<rparr>]"
  using trim_greeting
  by (simp add: handleSendMessage_def handleSendMessage_begin_def chat_request_def
      chat_payload_def JSON_stringify_def json_headers_def)
     (simp add: greeting_state_def mounted_state_eq)

subsection \<open>Events: failures change nothing\<close>

text \<open>
  C7. A rejected fetch in fetchEvents leaves the state, and so the events, as it was;
  a rejected fetch or a response that is not ok in handleAddEvent leaves the state, and
  so the form and the dialog flag, as it was.
\<close>

theorem events_failures_are_silent:
  "fst (fetchEvents st Rejected) = st
   \<and> events (fst (fetchEvents st Rejected)) = events st
   \<and> fst (handleAddEvent st Rejected get) = st
   \<and> fst (handleAddEvent st (Response False b) get) = st
   \<and> newEvent (fst (handleAddEvent st Rejected get)) = newEvent st
   \<and> showAddEvent (fst (handleAddEvent st Rejected get)) = showAddEvent st
   \<and> newEvent (fst (handleAddEvent st (Response False b) get)) = newEvent st
   \<and> showAddEvent (fst (handleAddEvent st (Response False b) get)) = showAddEvent st"
  by (simp add: fetchEvents_def handleAddEvent_def)

subsection \<open>Chat: the recommendations after a turn\<close>

text \<open>
  C8, as the code has it. After a turn whose request succeeded (a response that is ok,
  with a body that parses and is not null) the recommended events are the
  \<open>recommended_events\<close> of that response, or the empty list when that is missing or
  falsy, whatever they were before; after a turn whose request failed they are what
  they were before the turn.
\<close>

theorem recommendations_after_turn:
  assumes "trim (inputMessage st) \<noteq> []"
  shows "recommendedEvents (fst (handleSendMessage st c res c')) =
     (case res of
        Response True (Some data) \<Rightarrow>
          (case get_property data ''recommended_events'' of
             Inr evs \<Rightarrow> js_or evs (JArr [])
           | Inl e \<Rightarrow> recommendedEvents st)
      | _ \<Rightarrow> recommendedEvents st)"
  using assms
  by (simp add: handleSendMessage_def handleSendMessage_begin_def settle_recommendedEvents
      split: fetch_result.splits bool.splits option.splits sum.splits)

theorem recommendations_after_turn_witness:
  "trim (inputMessage greeting_state) \<noteq> []
   \<and> recommendedEvents (fst (handleSendMessage greeting_state noon
        (Response True (Some jazz_reply)) noon_later)) = JArr [jazz_night]"
proof -
  have t: "trim (inputMessage greeting_state) \<noteq> []"
    using trim_greeting by simp
  from recommendations_after_turn [OF t, of noon "Response True (Some jazz_reply)" noon_later] t
  show ?thesis
    by (simp add: jazz_reply_def js_or_def)
qed

text \<open>
  C8, as stated, fails on a turn that fails after one that succeeded: the second turn
  has no response, and the recommendation of the first turn is still there.
\<close>

theorem failed_turn_keeps_recommendations_counterexample:
  "trim (inputMessage second_question_state) \<noteq> []
   \<and> recommendedEvents (fst (handleSendMessage second_question_state noon Rejected noon_later))
       = JArr [jazz_night]
   \<and> JArr [jazz_night] \<noteq> JArr []"
  using trim_second_question
  by (simp add: handleSendMessage_def handleSendMessage_begin_def settle_recommendedEvents
      second_question_recommendations)

subsection \<open>Chat: a blank input\<close>

text \<open>
  C9. A call of handleSendMessage on an input that trims to the empty string issues no
  request and returns the state as it was: messages, input, loading flag and
  recommended events among the rest.
\<close>

theorem blank_input_is_no_op:
  assumes "trim (inputMessage st) = []"
  shows "handleSendMessage st c res c' = (st, [])"
  using assms by (simp add: handleSendMessage_def handleSendMessage_begin_def)

theorem blank_input_is_no_op_witness:
  "trim (inputMessage blank_input_state) = []
   \<and> handleSendMessage blank_input_state noon (Response True (Some jazz_reply)) noon_later
       = (blank_input_state, [])"
  using blank_input_is_no_op [OF trim_blank_input] trim_blank_input
  by simp

subsection \<open>The location after requestLocation\<close>

text \<open>
  C10. Without geolocation, and when the position request errors, requestLocation sets
  the user location to latitude 40.7589, longitude -73.9851; and whatever the outcome
  of the request, the user location is set afterwards.
\<close>

theorem requestLocation_default:
  "userLocation (requestLocation st NoGeolocation) =
     Some \<lparr>location.latitude = 40.7589, location.longitude = - 73.9851\<rparr>
   \<and> userLocation (requestLocation st PositionError) =
     Some \<lparr>location.latitude = 40.7589, location.longitude = - 73.9851\<rparr>
   \<and> userLocation (requestLocation st g) \<noteq> None"
  by (cases g) (simp_all add: default_location_def)

end
